theory Spec2Isabelle
  imports Main "HOL-Library.Word" "HOL-Library.Monad_Syntax"
begin

unbundle bit_operations_syntax

section \<open>Common types and constants (debug.go)\<close>

type_synonym uint32 = "32 word"
type_synonym uint64 = "64 word"
type_synonym int32 = "32 word"

text \<open>\<^verbatim>\<open>LLVMDebugVersion = (12 << 16)\<close>, used at type \<^verbatim>\<open>uint64\<close>.\<close>

definition LLVMDebugVersion :: uint64 where
  "LLVMDebugVersion = push_bit 16 12"

type_synonym DwarfTag = uint32

definition DW_TAG_lexical_block :: DwarfTag where "DW_TAG_lexical_block = 0x0b"
definition DW_TAG_compile_unit :: DwarfTag where "DW_TAG_compile_unit = 0x11"
definition DW_TAG_variable :: DwarfTag where "DW_TAG_variable = 0x34"
definition DW_TAG_base_type :: DwarfTag where "DW_TAG_base_type = 0x24"
definition DW_TAG_pointer_type :: DwarfTag where "DW_TAG_pointer_type = 0x0F"
definition DW_TAG_structure_type :: DwarfTag where "DW_TAG_structure_type = 0x13"
definition DW_TAG_subroutine_type :: DwarfTag where "DW_TAG_subroutine_type = 0x15"
definition DW_TAG_file_type :: DwarfTag where "DW_TAG_file_type = 0x29"
definition DW_TAG_subprogram :: DwarfTag where "DW_TAG_subprogram = 0x2E"
definition DW_TAG_auto_variable :: DwarfTag where "DW_TAG_auto_variable = 0x100"
definition DW_TAG_arg_variable :: DwarfTag where "DW_TAG_arg_variable = 0x101"

text \<open>\<^verbatim>\<open>FlagPrototyped\<close> is the ninth constant of the \<^verbatim>\<open>1 << iota\<close> block.\<close>

definition FlagPrototyped :: uint64 where
  "FlagPrototyped = push_bit 8 1"

type_synonym DwarfLang = uint32
type_synonym DwarfTypeEncoding = uint32

definition DW_LANG_Go :: DwarfLang where "DW_LANG_Go = 0x0016"
definition DW_ATE_signed :: DwarfTypeEncoding where "DW_ATE_signed = 0x05"

section \<open>Values of the code-generation library\<close>

text \<open>
  The node builder is an external collaborator. Its constructors are kept symbolic: a
  value is the constructor that made it together with the arguments it was given.
  \<open>NilValue\<close> is \<^verbatim>\<open>Value{nil}\<close>; \<open>Handle\<close> stands for a value made elsewhere (a
  function, a global, an alloca); \<open>CreateCall\<close> is the call instruction the builder
  returns.
\<close>

datatype LLVMType = Int1Type | Int32Type | Int64Type

datatype Value =
    NilValue
  | ConstInt LLVMType uint64 bool
  | ConstNull LLVMType
  | ConstAllOnes LLVMType
  | MDString string
  | MDNode "Value list"
  | Handle nat
  | CreateCall Value "Value list" string

definition constInt1 :: "bool \<Rightarrow> Value" where
  "constInt1 v = (if v then ConstAllOnes Int1Type else ConstNull Int1Type)"

section \<open>Descriptors\<close>

text \<open>
  Every implementation of \<^verbatim>\<open>DebugDescriptor\<close> has pointer receivers, so a non-nil
  interface value is a pointer. \<open>ident\<close> is the identity of such a pointer (its dynamic
  type and address), which is what the cache map compares. An interface value is the nil
  interface, a nil pointer boxed in an interface, or a pointer.
\<close>

type_synonym ident = nat

datatype DebugDescriptor = NilInterface | NilPointer | Ptr ident

text \<open>A field of type \<^verbatim>\<open>*FileDescriptor\<close> is nil or a pointer; passing it where a
  \<^verbatim>\<open>DebugDescriptor\<close> is expected boxes it.\<close>

type_synonym FilePtr = "ident option"

definition box :: "FilePtr \<Rightarrow> DebugDescriptor" where
  "box p = (case p of None \<Rightarrow> NilPointer | Some a \<Rightarrow> Ptr a)"

type_synonym FileDescriptor = string

record BasicTypeDescriptor =
  bt_Context :: DebugDescriptor
  bt_Name :: string
  bt_File :: FilePtr
  bt_Line :: uint32
  bt_Size :: uint64
  bt_Alignment :: uint64
  bt_Offset :: uint64
  bt_Flags :: uint32
  bt_TypeEncoding :: DwarfTypeEncoding

record CompositeTypeDescriptor =
  ct_tag :: DwarfTag
  ct_Context :: DebugDescriptor
  ct_Name :: string
  ct_File :: FilePtr
  ct_Line :: uint32
  ct_Size :: uint64
  ct_Alignment :: uint64
  ct_Offset :: uint64
  ct_Flags :: uint32
  ct_Members :: "DebugDescriptor list"

record CompileUnitDescriptor =
  cu_Path :: FileDescriptor
  cu_Language :: DwarfLang
  cu_Producer :: string
  cu_Optimized :: bool
  cu_CompilerFlags :: string
  cu_Runtime :: int32
  cu_EnumTypes :: "DebugDescriptor list"
  cu_RetainedTypes :: "DebugDescriptor list"
  cu_Subprograms :: "DebugDescriptor list"
  cu_GlobalVariables :: "DebugDescriptor list"

record DerivedTypeDescriptor =
  dt_tag :: DwarfTag
  dt_Context :: DebugDescriptor
  dt_Name :: string
  dt_File :: FilePtr
  dt_Line :: uint32
  dt_Size :: uint64
  dt_Alignment :: uint64
  dt_Offset :: uint64
  dt_Flags :: uint32
  dt_Base :: DebugDescriptor

record SubprogramDescriptor =
  sp_Context :: DebugDescriptor
  sp_Name :: string
  sp_DisplayName :: string
  sp_Type :: DebugDescriptor
  sp_Line :: uint32
  sp_Function :: Value
  sp_Path :: FileDescriptor
  sp_ScopeLine :: uint32

record GlobalVariableDescriptor =
  gv_Context :: DebugDescriptor
  gv_Name :: string
  gv_DisplayName :: string
  gv_File :: FilePtr
  gv_Line :: uint32
  gv_Type :: DebugDescriptor
  gv_Local :: bool
  gv_External :: bool
  gv_Value :: Value

record LocalVariableDescriptor =
  lv_tag :: DwarfTag
  lv_Context :: DebugDescriptor
  lv_Name :: string
  lv_File :: DebugDescriptor
  lv_Line :: uint32
  lv_Argument :: uint32
  lv_Type :: DebugDescriptor

record LineDescriptor =
  ln_Line :: uint32
  ln_Column :: uint32
  ln_Context :: DebugDescriptor

record BlockDescriptor =
  bl_File :: FilePtr
  bl_Context :: DebugDescriptor
  bl_Line :: uint32
  bl_Column :: uint32
  bl_Id :: uint32

text \<open>What a descriptor pointer points to, by dynamic type. \<open>Context\<close> is
  \<^verbatim>\<open>struct{ FileDescriptor }\<close>.\<close>

datatype Descriptor =
    BasicType BasicTypeDescriptor
  | CompositeType CompositeTypeDescriptor
  | CompileUnit CompileUnitDescriptor
  | DerivedType DerivedTypeDescriptor
  | Subprogram SubprogramDescriptor
  | GlobalVariable GlobalVariableDescriptor
  | LocalVariable LocalVariableDescriptor
  | File FileDescriptor
  | Line LineDescriptor
  | Context FileDescriptor
  | Block BlockDescriptor

text \<open>The heap gives the pointee of every pointer. Lowering never writes to a
  descriptor, so the heap is read only.\<close>

type_synonym heap = "ident \<Rightarrow> Descriptor"

subsection \<open>Tag\<close>

text \<open>A panic is \<open>Inl\<close> of its message.\<close>

definition LineDescriptor_Tag :: "LineDescriptor \<Rightarrow> string + DwarfTag" where
  "LineDescriptor_Tag d = Inl ''LineDescriptor.Tag should never be called''"

fun Tag :: "Descriptor \<Rightarrow> string + DwarfTag" where
  "Tag (BasicType d) = Inr DW_TAG_base_type"
| "Tag (CompositeType d) = Inr (ct_tag d)"
| "Tag (CompileUnit d) = Inr DW_TAG_compile_unit"
| "Tag (DerivedType d) = Inr (dt_tag d)"
| "Tag (Subprogram d) = Inr DW_TAG_subprogram"
| "Tag (GlobalVariable d) = Inr DW_TAG_variable"
| "Tag (LocalVariable d) = Inr (lv_tag d)"
| "Tag (File d) = Inr DW_TAG_file_type"
| "Tag (Line d) = LineDescriptor_Tag d"
| "Tag (Context d) = Inr DW_TAG_file_type"
| "Tag (Block d) = Inr DW_TAG_lexical_block"

subsection \<open>Files\<close>

text \<open>
  Modelled from the spec: \<^verbatim>\<open>path.Split\<close> belongs to the Go standard library and is not
  part of the sources. It splits the path immediately after the last slash; without a
  slash the directory is empty and the file is the whole path. \<open>LastIndexByte\<close> is
  the index of the last occurrence, or \<open>-1\<close>.
\<close>

fun LastIndexByte :: "string \<Rightarrow> char \<Rightarrow> int" where
  "LastIndexByte [] c = -1"
| "LastIndexByte (x # xs) c =
     (let r = LastIndexByte xs c
      in if 0 \<le> r then r + 1 else if x = c then 0 else -1)"

definition path_Split :: "string \<Rightarrow> string \<times> string" where
  "path_Split p =
     (let i = LastIndexByte p CHR ''/''
      in (take (nat (i + 1)) p, drop (nat (i + 1)) p))"

definition FileDescriptor_mdNode :: "FileDescriptor \<Rightarrow> Value" where
  "FileDescriptor_mdNode d =
     (let (dirname, filename) = path_Split d;
          l = length dirname;
          dirname = (if l > 0 \<and> dirname ! (l - 1) = CHR ''/''
                     then take (l - 1) dirname else dirname)
      in MDNode [MDString filename, MDString dirname])"

section \<open>The lowering cache\<close>

text \<open>
  \<open>cache\<close> is the map of the struct; \<open>None\<close> is the nil map. \<open>calls\<close> is a history
  kept beside it for the statements below: the pointers whose own \<^verbatim>\<open>mdNode\<close> was
  invoked through the cache, oldest first. No function reads it.
\<close>

record DebugInfo =
  cache :: "(ident \<rightharpoonup> Value) option"
  calls :: "ident list"

text \<open>Reading a nil map finds nothing.\<close>

definition entries :: "DebugInfo \<Rightarrow> (ident \<rightharpoonup> Value)" where
  "entries info = (case cache info of None \<Rightarrow> Map.empty | Some m \<Rightarrow> m)"

text \<open>\<^verbatim>\<open>if info.cache == nil { info.cache = make(...) }\<close>\<close>

definition allocate :: "DebugInfo \<Rightarrow> DebugInfo" where
  "allocate info = (case cache info of None \<Rightarrow> info\<lparr>cache := Some Map.empty\<rparr> | Some m \<Rightarrow> info)"

text \<open>\<^verbatim>\<open>info.cache[d] = value\<close>; the map is allocated by then.\<close>

definition store :: "ident \<Rightarrow> Value \<Rightarrow> DebugInfo \<Rightarrow> DebugInfo" where
  "store a v info = info\<lparr>cache := Some ((entries info)(a \<mapsto> v))\<rparr>"

definition invoked :: "ident \<Rightarrow> DebugInfo \<Rightarrow> DebugInfo" where
  "invoked a info = info\<lparr>calls := calls info @ [a]\<rparr>"

text \<open>
  Lowering recurses through the descriptor graph and need not return on a cyclic one, so
  the functions take fuel: the first argument bounds the depth of nested \<^verbatim>\<open>mdNode\<close>
  calls made through the cache, and \<open>None\<close> means the bound was reached. The arguments
  of a composite literal are evaluated left to right.
\<close>

fun DebugInfo_MDNode :: "nat \<Rightarrow> heap \<Rightarrow> DebugInfo \<Rightarrow> DebugDescriptor \<Rightarrow> (Value \<times> DebugInfo) option"
and DebugInfo_MDNodes :: "nat \<Rightarrow> heap \<Rightarrow> DebugInfo \<Rightarrow> DebugDescriptor list \<Rightarrow> (Value list \<times> DebugInfo) option"
and mdNode :: "nat \<Rightarrow> heap \<Rightarrow> DebugInfo \<Rightarrow> Descriptor \<Rightarrow> (Value \<times> DebugInfo) option"
where
  "DebugInfo_MDNode n h info NilInterface = Some (NilValue, info)"
| "DebugInfo_MDNode n h info NilPointer = Some (NilValue, info)"
| "DebugInfo_MDNode n h info (Ptr a) =
     (let info = allocate info
      in case entries info a of
           Some v \<Rightarrow> Some (v, info)
         | None \<Rightarrow>
            (case n of
               0 \<Rightarrow> None
             | Suc m \<Rightarrow>
                do { (v, info) \<leftarrow> mdNode m h (invoked a info) (h a);
                     Some (v, store a v info) }))"
| "DebugInfo_MDNodes n h info [] = Some ([], info)"
| "DebugInfo_MDNodes n h info (d # ds) =
     do { (v, info) \<leftarrow> DebugInfo_MDNode n h info d;
          (vs, info) \<leftarrow> DebugInfo_MDNodes n h info ds;
          Some (v # vs, info) }"
| "mdNode n h info (BasicType d) =
     do { (file, info) \<leftarrow> DebugInfo_MDNode n h info (box (bt_File d));
          (ctx, info) \<leftarrow> DebugInfo_MDNode n h info (bt_Context d);
          Some (MDNode [
            ConstInt Int32Type (LLVMDebugVersion + ucast DW_TAG_base_type) False,
            file,
            ctx,
            MDString (bt_Name d),
            ConstInt Int32Type (ucast (bt_Line d)) False,
            ConstInt Int64Type (bt_Size d) False,
            ConstInt Int64Type (bt_Alignment d) False,
            ConstInt Int64Type (bt_Offset d) False,
            ConstInt Int32Type (ucast (bt_Flags d)) False,
            ConstInt Int32Type (ucast (bt_TypeEncoding d)) False], info) }"
| "mdNode n h info (CompositeType d) =
     do { (file, info) \<leftarrow> DebugInfo_MDNode n h info (box (ct_File d));
          (ctx, info) \<leftarrow> DebugInfo_MDNode n h info (ct_Context d);
          (derived, info) \<leftarrow> DebugInfo_MDNode n h info NilInterface;
          (members, info) \<leftarrow> DebugInfo_MDNodes n h info (ct_Members d);
          Some (MDNode [
            ConstInt Int32Type (LLVMDebugVersion + ucast (ct_tag d)) False,
            file,
            ctx,
            MDString (ct_Name d),
            ConstInt Int32Type (ucast (ct_Line d)) False,
            ConstInt Int64Type (ct_Size d) False,
            ConstInt Int64Type (ct_Alignment d) False,
            ConstInt Int64Type (ct_Offset d) False,
            ConstInt Int32Type (ucast (ct_Flags d)) False,
            derived,
            MDNode members,
            ConstInt Int32Type 0 False,
            ConstInt Int32Type 0 False], info) }"
| "mdNode n h info (CompileUnit d) =
     do { (enums, info) \<leftarrow> DebugInfo_MDNodes n h info (cu_EnumTypes d);
          (retained, info) \<leftarrow> DebugInfo_MDNodes n h info (cu_RetainedTypes d);
          (subprograms, info) \<leftarrow> DebugInfo_MDNodes n h info (cu_Subprograms d);
          (globals, info) \<leftarrow> DebugInfo_MDNodes n h info (cu_GlobalVariables d);
          Some (MDNode [
            ConstInt Int32Type (ucast DW_TAG_compile_unit + LLVMDebugVersion) False,
            FileDescriptor_mdNode (cu_Path d),
            ConstInt Int32Type (ucast (cu_Language d)) False,
            MDString (cu_Producer d),
            constInt1 (cu_Optimized d),
            MDString (cu_CompilerFlags d),
            ConstInt Int32Type (scast (cu_Runtime d)) False,
            MDNode enums,
            MDNode retained,
            MDNode subprograms,
            MDNode globals,
            MDNode [],
            MDString ''''], info) }"
| "mdNode n h info (DerivedType d) =
     do { (file, info) \<leftarrow> DebugInfo_MDNode n h info (box (dt_File d));
          (ctx, info) \<leftarrow> DebugInfo_MDNode n h info (dt_Context d);
          (base, info) \<leftarrow> DebugInfo_MDNode n h info (dt_Base d);
          Some (MDNode [
            ConstInt Int32Type (LLVMDebugVersion + ucast (dt_tag d)) False,
            file,
            ctx,
            MDString (dt_Name d),
            ConstInt Int32Type (ucast (dt_Line d)) False,
            ConstInt Int64Type (dt_Size d) False,
            ConstInt Int64Type (dt_Alignment d) False,
            ConstInt Int64Type (dt_Offset d) False,
            ConstInt Int32Type (ucast (dt_Flags d)) False,
            base], info) }"
| "mdNode n h info (Subprogram d) =
     do { (ctx, info) \<leftarrow> DebugInfo_MDNode n h info (sp_Context d);
          (ty, info) \<leftarrow> DebugInfo_MDNode n h info (sp_Type d);
          (vtable, info) \<leftarrow> DebugInfo_MDNode n h info NilInterface;
          (template, info) \<leftarrow> DebugInfo_MDNode n h info NilInterface;
          (decl, info) \<leftarrow> DebugInfo_MDNode n h info NilInterface;
          Some (MDNode [
            ConstInt Int32Type (LLVMDebugVersion + ucast DW_TAG_subprogram) False,
            FileDescriptor_mdNode (sp_Path d),
            ctx,
            MDString (sp_Name d),
            MDString (sp_DisplayName d),
            MDString '''',
            ConstInt Int32Type (ucast (sp_Line d)) False,
            ty,
            ConstNull Int1Type,
            ConstAllOnes Int1Type,
            ConstNull Int32Type,
            ConstNull Int32Type,
            vtable,
            ConstInt Int32Type FlagPrototyped False,
            ConstNull Int1Type,
            sp_Function d,
            template,
            decl,
            MDNode [],
            ConstInt Int32Type (ucast (sp_ScopeLine d)) False], info) }"
| "mdNode n h info (GlobalVariable d) =
     do { (ctx, info) \<leftarrow> DebugInfo_MDNode n h info (gv_Context d);
          (file, info) \<leftarrow> DebugInfo_MDNode n h info (box (gv_File d));
          (ty, info) \<leftarrow> DebugInfo_MDNode n h info (gv_Type d);
          Some (MDNode [
            ConstInt Int32Type (ucast DW_TAG_variable + LLVMDebugVersion) False,
            ConstNull Int32Type,
            ctx,
            MDString (gv_Name d),
            MDString (gv_DisplayName d),
            MDNode [],
            file,
            ConstInt Int32Type (ucast (gv_Line d)) False,
            ty,
            constInt1 (gv_Local d),
            constInt1 (\<not> gv_External d),
            gv_Value d], info) }"
| "mdNode n h info (LocalVariable d) =
     do { (ctx, info) \<leftarrow> DebugInfo_MDNode n h info (lv_Context d);
          (file, info) \<leftarrow> DebugInfo_MDNode n h info (lv_File d);
          (ty, info) \<leftarrow> DebugInfo_MDNode n h info (lv_Type d);
          Some (MDNode [
            ConstInt Int32Type (ucast (lv_tag d) + LLVMDebugVersion) False,
            ctx,
            MDString (lv_Name d),
            file,
            ConstInt Int32Type (ucast (lv_Line d) OR push_bit 24 (ucast (lv_Argument d))) False,
            ty,
            ConstNull Int32Type,
            ConstNull Int32Type], info) }"
| "mdNode n h info (File d) = Some (FileDescriptor_mdNode d, info)"
| "mdNode n h info (Line d) =
     do { (ctx, info) \<leftarrow> DebugInfo_MDNode n h info (ln_Context d);
          (inlined, info) \<leftarrow> DebugInfo_MDNode n h info NilInterface;
          Some (MDNode [
            ConstInt Int32Type (ucast (ln_Line d)) False,
            ConstInt Int32Type (ucast (ln_Column d)) False,
            ctx,
            inlined], info) }"
| "mdNode n h info (Context d) =
     Some (MDNode [
       ConstInt Int32Type (ucast DW_TAG_file_type + LLVMDebugVersion) False,
       FileDescriptor_mdNode d], info)"
| "mdNode n h info (Block d) =
     do { (file, info) \<leftarrow> DebugInfo_MDNode n h info (box (bl_File d));
          (ctx, info) \<leftarrow> DebugInfo_MDNode n h info (bl_Context d);
          Some (MDNode [
            ConstInt Int32Type (ucast DW_TAG_lexical_block + LLVMDebugVersion) False,
            file,
            ctx,
            ConstInt Int32Type (ucast (bl_Line d)) False,
            ConstInt Int32Type (ucast (bl_Column d)) False,
            ConstInt Int32Type (ucast (bl_Id d)) False], info) }"

section \<open>Constructors (debug.go)\<close>

text \<open>\<^verbatim>\<open>new(CompositeTypeDescriptor)\<close>: every field has its zero value. The constructor
  functions return a pointer to a fresh descriptor; the model gives its contents.\<close>

definition new_CompositeTypeDescriptor :: CompositeTypeDescriptor where
  "new_CompositeTypeDescriptor =
     \<lparr>ct_tag = 0, ct_Context = NilInterface, ct_Name = '''', ct_File = None, ct_Line = 0,
      ct_Size = 0, ct_Alignment = 0, ct_Offset = 0, ct_Flags = 0, ct_Members = []\<rparr>"

text \<open>The builtin \<^verbatim>\<open>copy(dst, src)\<close> overwrites the first
  \<^verbatim>\<open>min(len(dst), len(src))\<close> elements of \<open>dst\<close>.\<close>

definition copy_slice :: "'a list \<Rightarrow> 'a list \<Rightarrow> 'a list" where
  "copy_slice dst src =
     (let k = min (length dst) (length src) in take k src @ drop k dst)"

definition NewSubroutineCompositeType ::
  "DebugDescriptor \<Rightarrow> DebugDescriptor list \<Rightarrow> CompositeTypeDescriptor" where
  "NewSubroutineCompositeType Result Params =
     (let d = new_CompositeTypeDescriptor;
          d = d\<lparr>ct_tag := DW_TAG_subroutine_type\<rparr>;
          d = d\<lparr>ct_Members := replicate (length Params + 1) NilInterface\<rparr>;
          d = d\<lparr>ct_Members := (ct_Members d)[0 := Result]\<rparr>;
          d = d\<lparr>ct_Members := take 1 (ct_Members d) @ copy_slice (drop 1 (ct_Members d)) Params\<rparr>
      in d)"

section \<open>The declare intrinsic (debug2.cpp and the builder)\<close>

text \<open>
  The code-generation library is a parameter: \<open>getDeclaration\<close> is the lookup in the
  intrinsic catalog, \<open>dbg_declare\<close> the enumerator \<^verbatim>\<open>llvm::Intrinsic::dbg_declare\<close> of
  the library's header, \<open>IsAFunction\<close> the checked cast (it returns the nil value for
  anything that is not a function) and \<open>Name\<close> the name a value reports.
\<close>

record 'm Library =
  getDeclaration :: "'m \<Rightarrow> nat \<Rightarrow> Value"
  dbg_declare :: nat
  IsAFunction :: "Value \<Rightarrow> Value"
  Name :: "Value \<Rightarrow> string"

text \<open>The identifier that \<^verbatim>\<open>getDbgDeclare\<close> hands to the lookup: \<^verbatim>\<open>id = dbg_declare; id++\<close>.\<close>

definition getDbgDeclare_id :: "'m Library \<Rightarrow> nat" where
  "getDbgDeclare_id L = (let i = dbg_declare L; i = i + 1 in i)"

definition getDbgDeclare :: "'m Library \<Rightarrow> 'm \<Rightarrow> Value" where
  "getDbgDeclare L module =
     (let DeclareFn = getDeclaration L module (getDbgDeclare_id L) in DeclareFn)"

definition IsNil :: "Value \<Rightarrow> bool" where
  "IsNil v = (v = NilValue)"

definition InsertDeclare :: "'m Library \<Rightarrow> 'm \<Rightarrow> Value \<Rightarrow> Value \<Rightarrow> string + Value" where
  "InsertDeclare L module storage md =
     (let nf = getDbgDeclare L module
      in if IsNil (IsAFunction L nf) \<or> Name L nf \<noteq> ''llvm.dbg.declare''
         then Inl (''Wanted llvm.dbg.declare but got: '' @ Name L nf)
         else Inr (CreateCall nf [storage, md] ''''))"

section \<open>The references a descriptor lowers through the cache\<close>

text \<open>\<open>refs d\<close> lists, in evaluation order, the arguments of the \<^verbatim>\<open>info.MDNode\<close> and
  \<^verbatim>\<open>info.MDNodes\<close> calls that \<^verbatim>\<open>mdNode\<close> makes on \<open>d\<close>.\<close>

fun refs :: "Descriptor \<Rightarrow> DebugDescriptor list" where
  "refs (BasicType d) = [box (bt_File d), bt_Context d]"
| "refs (CompositeType d) = [box (ct_File d), ct_Context d, NilInterface] @ ct_Members d"
| "refs (CompileUnit d) =
     cu_EnumTypes d @ cu_RetainedTypes d @ cu_Subprograms d @ cu_GlobalVariables d"
| "refs (DerivedType d) = [box (dt_File d), dt_Context d, dt_Base d]"
| "refs (Subprogram d) = [sp_Context d, sp_Type d, NilInterface, NilInterface, NilInterface]"
| "refs (GlobalVariable d) = [gv_Context d, box (gv_File d), gv_Type d]"
| "refs (LocalVariable d) = [lv_Context d, lv_File d, lv_Type d]"
| "refs (File d) = []"
| "refs (Line d) = [ln_Context d, NilInterface]"
| "refs (Context d) = []"
| "refs (Block d) = [box (bl_File d), bl_Context d]"

definition keys :: "DebugInfo \<Rightarrow> ident set" where
  "keys info = dom (entries info)"

text \<open>
  The effect of lowering a list of references on the cache and the history, as a
  relation: \<open>runs h n info ds info'\<close> holds when lowering \<open>ds\<close> in order with fuel
  \<open>n\<close> takes \<open>info\<close> to \<open>info'\<close>. It forgets the values (\<open>runs_sound\<close> below
  relates it to the functions) and is what the proofs about the cache induct on.
\<close>

inductive runs :: "heap \<Rightarrow> nat \<Rightarrow> DebugInfo \<Rightarrow> DebugDescriptor list \<Rightarrow> DebugInfo \<Rightarrow> bool"
  for h :: heap where
  runs_done: "runs h n info [] info"
| runs_nil_interface: "runs h n info ds info' \<Longrightarrow> runs h n info (NilInterface # ds) info'"
| runs_nil_pointer: "runs h n info ds info' \<Longrightarrow> runs h n info (NilPointer # ds) info'"
| runs_hit: "a \<in> keys info \<Longrightarrow> runs h n (allocate info) ds info' \<Longrightarrow>
     runs h n info (Ptr a # ds) info'"
| runs_miss: "a \<notin> keys info \<Longrightarrow>
     runs h n (invoked a (allocate info)) (refs (h a)) info1 \<Longrightarrow>
     runs h (Suc n) (store a v info1) ds info' \<Longrightarrow>
     runs h (Suc n) info (Ptr a # ds) info'"

text \<open>\<open>T\<close> extends \<open>S\<close>, and every key added has all its references in \<open>T\<close>.\<close>

definition closed_from :: "heap \<Rightarrow> ident set \<Rightarrow> ident set \<Rightarrow> bool" where
  "closed_from h S T \<longleftrightarrow>
     S \<subseteq> T \<and> (\<forall>k \<in> T - S. \<forall>a. Ptr a \<in> set (refs (h k)) \<longrightarrow> a \<in> T)"

section \<open>Descriptor graphs without cycles, and states that differ in the history\<close>

text \<open>\<open>ranked h r\<close>: every reference of a descriptor points to a descriptor of smaller
  rank, so no chain of references comes back to where it started. \<open>below r n d\<close>: the
  reference \<open>d\<close> is nil or points to a descriptor of rank below \<open>n\<close>.\<close>

definition ranked :: "heap \<Rightarrow> (ident \<Rightarrow> nat) \<Rightarrow> bool" where
  "ranked h r \<longleftrightarrow> (\<forall>a b. Ptr b \<in> set (refs (h a)) \<longrightarrow> r b < r a)"

fun below :: "(ident \<Rightarrow> nat) \<Rightarrow> nat \<Rightarrow> DebugDescriptor \<Rightarrow> bool" where
  "below r n (Ptr a) = (r a < n)"
| "below r n NilInterface = True"
| "below r n NilPointer = True"

text \<open>Two outcomes agree up to the history: both without result, or the same value and
  the same cache.\<close>

definition same_result :: "('a \<times> DebugInfo) option \<Rightarrow> ('a \<times> DebugInfo) option \<Rightarrow> bool" where
  "same_result x y \<longleftrightarrow>
     (case (x, y) of
        (None, None) \<Rightarrow> True
      | (Some (v, i), Some (w, j)) \<Rightarrow> v = w \<and> cache i = cache j
      | _ \<Rightarrow> False)"

section \<open>Example inputs\<close>

text \<open>A basic type \<^verbatim>\<open>int\<close> declared in \<^verbatim>\<open>main.x\<close>, line 5: pointer 0 is the type,
  pointer 1 its file.\<close>

definition example_int :: BasicTypeDescriptor where
  "example_int = \<lparr>bt_Context = NilInterface, bt_Name = ''int'', bt_File = Some 1,
      bt_Line = 5, bt_Size = 32, bt_Alignment = 32, bt_Offset = 0, bt_Flags = 0,
      bt_TypeEncoding = DW_ATE_signed\<rparr>"

definition example_heap :: heap where
  "example_heap = (\<lambda>_. File '''')(0 := BasicType example_int, 1 := File ''main.x'')"

definition empty_info :: DebugInfo where
  "empty_info = \<lparr>cache = None, calls = []\<rparr>"

definition example_file_node :: Value where
  "example_file_node = MDNode [MDString ''main.x'', MDString '''']"

definition example_int_node :: Value where
  "example_int_node = MDNode [
     ConstInt Int32Type (push_bit 16 12 + 0x24) False,
     example_file_node,
     NilValue,
     MDString ''int'',
     ConstInt Int32Type 5 False,
     ConstInt Int64Type 32 False,
     ConstInt Int64Type 32 False,
     ConstInt Int64Type 0 False,
     ConstInt Int32Type 0 False,
     ConstInt Int32Type 5 False]"

text \<open>The cache after the file, and after the type, was lowered from \<open>empty_info\<close>.\<close>

definition file_lowered :: DebugInfo where
  "file_lowered = \<lparr>cache = Some [1 \<mapsto> example_file_node], calls = [1]\<rparr>"

definition int_lowered :: DebugInfo where
  "int_lowered =
     \<lparr>cache = Some [1 \<mapsto> example_file_node, 0 \<mapsto> example_int_node], calls = [0, 1]\<rparr>"

text \<open>The second argument \<^verbatim>\<open>x\<close> of a function, declared on line 10.\<close>

definition example_local :: LocalVariableDescriptor where
  "example_local = \<lparr>lv_tag = DW_TAG_arg_variable, lv_Context = NilInterface, lv_Name = ''x'',
      lv_File = NilInterface, lv_Line = 10, lv_Argument = 2, lv_Type = NilInterface\<rparr>"

definition example_local_node :: Value where
  "example_local_node = MDNode [
     ConstInt Int32Type (0x101 + push_bit 16 12) False,
     NilValue,
     MDString ''x'',
     NilValue,
     ConstInt Int32Type (10 OR push_bit 24 2) False,
     NilValue,
     ConstNull Int32Type,
     ConstNull Int32Type]"

definition example_line :: LineDescriptor where
  "example_line = \<lparr>ln_Line = 7, ln_Column = 3, ln_Context = NilInterface\<rparr>"

text \<open>In the example the type has rank 1 and everything else rank 0.\<close>

definition example_rank :: "ident \<Rightarrow> nat" where
  "example_rank a = (if a = 0 then 1 else 0)"

text \<open>A pointer type whose base is the pointer type itself.\<close>

definition cyclic_heap :: heap where
  "cyclic_heap = (\<lambda>_. DerivedType \<lparr>dt_tag = DW_TAG_pointer_type, dt_Context = NilInterface,
      dt_Name = '''', dt_File = None, dt_Line = 0, dt_Size = 0, dt_Alignment = 0, dt_Offset = 0,
      dt_Flags = 0, dt_Base = Ptr 0\<rparr>)"

text \<open>Two libraries whose catalog answers identifier \<open>i\<close> with the handle \<open>i\<close>. In the
  first every handle reports the name of the declare intrinsic. In the second the names
  follow the enumeration: \<open>dbg_declare\<close> is the declare intrinsic and its successor is
  \<^verbatim>\<open>llvm.dbg.value\<close>.\<close>

definition good_library :: "unit Library" where
  "good_library = \<lparr>getDeclaration = (\<lambda>m i. Handle i), dbg_declare = 40,
      IsAFunction = (\<lambda>v. v), Name = (\<lambda>v. ''llvm.dbg.declare'')\<rparr>"

definition header_library :: "unit Library" where
  "header_library = \<lparr>getDeclaration = (\<lambda>m i. Handle i), dbg_declare = 40,
      IsAFunction = (\<lambda>v. v),
      Name = (\<lambda>v. if v = Handle 40 then ''llvm.dbg.declare'' else ''llvm.dbg.value'')\<rparr>"

section \<open>Basic facts\<close>

lemma entries_allocate [simp]: "entries (allocate info) = entries info"
  by (simp add: entries_def allocate_def split: option.splits)

lemma calls_allocate [simp]: "calls (allocate info) = calls info"
  by (simp add: allocate_def split: option.splits)

lemma allocate_idem [simp]: "allocate (allocate info) = allocate info"
  by (simp add: allocate_def split: option.splits)

lemma allocate_store [simp]: "allocate (store a v info) = store a v info"
  by (simp add: allocate_def store_def)

lemma entries_store [simp]: "entries (store a v info) = (entries info)(a \<mapsto> v)"
  by (simp add: entries_def store_def)

lemma calls_store [simp]: "calls (store a v info) = calls info"
  by (simp add: store_def)

lemma entries_invoked [simp]: "entries (invoked a info) = entries info"
  by (simp add: entries_def invoked_def)

lemma calls_invoked [simp]: "calls (invoked a info) = calls info @ [a]"
  by (simp add: invoked_def)

lemma keys_allocate [simp]: "keys (allocate info) = keys info"
  by (simp add: keys_def)

lemma keys_invoked [simp]: "keys (invoked a info) = keys info"
  by (simp add: keys_def)

lemma keys_store [simp]: "keys (store a v info) = insert a (keys info)"
  by (simp add: keys_def)

lemma MDNode_hit:
  "entries info a = Some v \<Longrightarrow> DebugInfo_MDNode n h info (Ptr a) = Some (v, allocate info)"
  by (simp add: Let_def)

lemma MDNode_miss_0:
  "entries info a = None \<Longrightarrow> DebugInfo_MDNode 0 h info (Ptr a) = None"
  by (simp add: Let_def)

lemma MDNode_miss_Suc:
  "entries info a = None \<Longrightarrow> DebugInfo_MDNode (Suc n) h info (Ptr a) =
     (case mdNode n h (invoked a (allocate info)) (h a) of
        None \<Rightarrow> None
      | Some (v, info') \<Rightarrow> Some (v, store a v info'))"
  by (simp add: Let_def split: Option.bind_split)

lemma MDNodes_append:
  "DebugInfo_MDNodes n h info (xs @ ys) =
     do { (vs, info1) \<leftarrow> DebugInfo_MDNodes n h info xs;
          (ws, info2) \<leftarrow> DebugInfo_MDNodes n h info1 ys;
          Some (vs @ ws, info2) }"
  by (induction xs arbitrary: info) (auto split: Option.bind_split)

lemma mdNode_refs:
  "mdNode n h info d = Some (v, info') \<Longrightarrow>
   \<exists>vs. DebugInfo_MDNodes n h info (refs d) = Some (vs, info')"
  by (cases d) (auto simp: MDNodes_append split: Option.bind_splits)

subsection \<open>Splitting a path\<close>

lemma LastIndexByte_absent: "c \<notin> set s \<Longrightarrow> LastIndexByte s c = -1"
  by (induction s) (auto simp: Let_def)

lemma LastIndexByte_present:
  "c \<in> set s \<Longrightarrow> 0 \<le> LastIndexByte s c \<and> nat (LastIndexByte s c) < length s
     \<and> s ! nat (LastIndexByte s c) = c \<and> c \<notin> set (drop (nat (LastIndexByte s c) + 1) s)"
proof (induction s)
  case Nil
  then show ?case by simp
next
  case (Cons x xs)
  show ?case
  proof (cases "c \<in> set xs")
    case True
    with Cons.IH have ih: "0 \<le> LastIndexByte xs c" "nat (LastIndexByte xs c) < length xs"
      "xs ! nat (LastIndexByte xs c) = c" "c \<notin> set (drop (nat (LastIndexByte xs c) + 1) xs)"
      by auto
    have "nat (LastIndexByte xs c + 1) = Suc (nat (LastIndexByte xs c))"
      using ih(1) by simp
    with ih show ?thesis by (simp add: Let_def)
  next
    case False
    with Cons.prems have "x = c" by simp
    with False show ?thesis by (simp add: Let_def LastIndexByte_absent)
  qed
qed

lemma FileDescriptor_mdNode_parts:
  "\<exists>f d. FileDescriptor_mdNode p = MDNode [MDString f, MDString d]
     \<and> CHR ''/'' \<notin> set f
     \<and> (if CHR ''/'' \<in> set p then p = d @ ''/'' @ f else p = f \<and> d = '''')"
proof (cases "CHR ''/'' \<in> set p")
  case False
  then show ?thesis
    by (simp add: FileDescriptor_mdNode_def path_Split_def LastIndexByte_absent)
next
  case True
  define i where "i = nat (LastIndexByte p CHR ''/'')"
  from LastIndexByte_present [OF True]
  have nn: "0 \<le> LastIndexByte p CHR ''/''" and lt: "i < length p" and at: "p ! i = CHR ''/''"
    and rest: "CHR ''/'' \<notin> set (drop (i + 1) p)"
    by (simp_all add: i_def)
  have idx: "nat (LastIndexByte p CHR ''/'' + 1) = Suc i"
    using nn by (simp add: i_def)
  have len: "length (take (Suc i) p) = Suc i"
    using lt by simp
  have lastc: "take (Suc i) p ! i = CHR ''/''"
    using at by simp
  have split: "path_Split p = (take (Suc i) p, drop (Suc i) p)"
    by (simp add: path_Split_def idx)
  have tt: "take i (take (Suc i) p) = take i p"
    by (simp add: min_def)
  have "FileDescriptor_mdNode p = MDNode [MDString (drop (Suc i) p), MDString (take i p)]"
    unfolding FileDescriptor_mdNode_def split using len lastc tt
    by (simp del: length_take take_take)
  moreover have "p = take i p @ ''/'' @ drop (Suc i) p"
    using id_take_nth_drop [OF lt] at by simp
  ultimately show ?thesis using rest True by auto
qed

lemma file_main_x: "FileDescriptor_mdNode ''main.x'' = example_file_node"
  by (simp add: FileDescriptor_mdNode_def path_Split_def example_file_node_def)

subsection \<open>The examples, evaluated\<close>

lemma lower_file_cold:
  "DebugInfo_MDNode (Suc 0) example_heap empty_info (Ptr 1) = Some (example_file_node, file_lowered)"
  by (simp add: example_heap_def empty_info_def file_lowered_def allocate_def entries_def
      invoked_def store_def file_main_x Let_def)

lemma lower_file_warm:
  "DebugInfo_MDNode n example_heap file_lowered (Ptr 1) = Some (example_file_node, file_lowered)"
  by (simp add: file_lowered_def allocate_def entries_def Let_def)

lemma lower_int_body:
  "mdNode (Suc 0) example_heap (invoked 0 (allocate empty_info)) (BasicType example_int) =
     Some (example_int_node, \<lparr>cache = Some [1 \<mapsto> example_file_node], calls = [0, 1]\<rparr>)"
  by (simp add: example_heap_def empty_info_def example_int_def example_int_node_def box_def
      allocate_def entries_def invoked_def store_def file_main_x Let_def
      LLVMDebugVersion_def DW_TAG_base_type_def DW_ATE_signed_def)

lemma lower_int_cold:
  "DebugInfo_MDNode (Suc (Suc 0)) example_heap empty_info (Ptr 0) =
     Some (example_int_node, int_lowered)"
proof -
  have "example_heap 0 = BasicType example_int"
    by (simp add: example_heap_def)
  moreover have "entries empty_info 0 = None"
    by (simp add: empty_info_def entries_def)
  moreover have "store 0 example_int_node
      \<lparr>cache = Some [1 \<mapsto> example_file_node], calls = [0, 1]\<rparr> = int_lowered"
    by (simp add: store_def int_lowered_def entries_def)
  ultimately show ?thesis
    using lower_int_body
    by (simp add: MDNode_miss_Suc del: mdNode.simps DebugInfo_MDNode.simps)
qed

lemma lower_int_direct:
  "mdNode (Suc 0) example_heap empty_info (BasicType example_int) =
     Some (example_int_node, file_lowered)"
  by (simp add: example_heap_def empty_info_def example_int_def example_int_node_def box_def
      file_lowered_def allocate_def entries_def invoked_def store_def file_main_x Let_def
      LLVMDebugVersion_def DW_TAG_base_type_def DW_ATE_signed_def)

lemma lower_local_direct:
  "mdNode 0 h info (LocalVariable example_local) = Some (example_local_node, info)"
  by (simp add: example_local_def example_local_node_def LLVMDebugVersion_def
      DW_TAG_arg_variable_def)

section \<open>The cache: effects of a run\<close>

lemma runs_sound:
  "DebugInfo_MDNodes n h info ds = Some (vs, info') \<Longrightarrow> runs h n info ds info'"
proof (induction n arbitrary: info ds vs info' rule: less_induct)
  case (less n)
  show ?case using less.prems
  proof (induction ds arbitrary: info vs info')
    case Nil
    then show ?case by (simp add: runs_done)
  next
    case (Cons d ds)
    from Cons.prems obtain v info1 ws where
      one: "DebugInfo_MDNode n h info d = Some (v, info1)"
      and rest: "DebugInfo_MDNodes n h info1 ds = Some (ws, info')"
      by (auto split: Option.bind_splits)
    have tail: "runs h n info1 ds info'"
      using Cons.IH rest by blast
    show ?case
    proof (cases d)
      case NilInterface
      with one tail show ?thesis by (auto intro: runs_nil_interface)
    next
      case NilPointer
      with one tail show ?thesis by (auto intro: runs_nil_pointer)
    next
      case (Ptr a)
      show ?thesis
      proof (cases "entries info a")
        case (Some w)
        with one Ptr have "info1 = allocate info" by simp
        moreover from Some have "a \<in> keys info" by (auto simp: keys_def)
        ultimately show ?thesis using tail Ptr by (auto intro: runs_hit)
      next
        case None
        with one Ptr obtain m info2 where
          n: "n = Suc m"
          and body: "mdNode m h (invoked a (allocate info)) (h a) = Some (v, info2)"
          and st: "info1 = store a v info2"
          by (auto split: nat.splits Option.bind_splits)
        from mdNode_refs [OF body] obtain us where
          "DebugInfo_MDNodes m h (invoked a (allocate info)) (refs (h a)) = Some (us, info2)"
          by blast
        with less.IH [of m] n
        have inner: "runs h m (invoked a (allocate info)) (refs (h a)) info2"
          by blast
        from None have "a \<notin> keys info" by (auto simp: keys_def)
        then show ?thesis
          using inner tail Ptr n st by (auto intro: runs_miss)
      qed
    qed
  qed
qed

lemma closed_from_refl: "closed_from h S S"
  by (simp add: closed_from_def)

lemma closed_from_trans:
  "closed_from h S T \<Longrightarrow> closed_from h T U \<Longrightarrow> closed_from h S U"
  unfolding closed_from_def by blast

lemma runs_mono: "runs h n info ds info' \<Longrightarrow> keys info \<subseteq> keys info'"
  by (induction rule: runs.induct) auto

lemma runs_cached: "runs h n info ds info' \<Longrightarrow> Ptr a \<in> set ds \<Longrightarrow> a \<in> keys info'"
proof (induction rule: runs.induct)
  case (runs_hit b info n ds info')
  then show ?case using runs_mono [OF runs_hit.hyps(2)] by auto
next
  case (runs_miss b info n info1 v ds info')
  then show ?case using runs_mono [OF runs_miss.hyps(3)] by auto
qed auto

lemma runs_closed: "runs h n info ds info' \<Longrightarrow> closed_from h (keys info) (keys info')"
proof (induction rule: runs.induct)
  case (runs_miss a info n info1 v ds info')
  have inner: "closed_from h (keys info) (keys info1)"
    using runs_miss.IH(1) by simp
  have kids: "\<forall>b. Ptr b \<in> set (refs (h a)) \<longrightarrow> b \<in> keys info1"
    using runs_cached [OF runs_miss.hyps(2)] by blast
  have "closed_from h (keys info) (insert a (keys info1))"
    using inner kids unfolding closed_from_def by blast
  then show ?case
    using runs_miss.IH(2) closed_from_trans by fastforce
qed (auto simp: closed_from_refl)

text \<open>A run that is asked only for keys of a closed superset stays inside it.\<close>

lemma runs_within:
  "runs h n info ds info' \<Longrightarrow> closed_from h (keys info) T \<Longrightarrow>
   (\<forall>a. Ptr a \<in> set ds \<longrightarrow> a \<in> T) \<Longrightarrow> closed_from h (keys info') T"
proof (induction rule: runs.induct)
  case (runs_miss a info n info1 v ds info')
  have aT: "a \<in> T" using runs_miss.prems(2) by simp
  with runs_miss.hyps(1) runs_miss.prems(1)
  have kids: "\<forall>b. Ptr b \<in> set (refs (h a)) \<longrightarrow> b \<in> T"
    unfolding closed_from_def by blast
  have "closed_from h (keys info1) T"
    using runs_miss.IH(1) runs_miss.prems(1) kids by simp
  then have "closed_from h (keys (store a v info1)) T"
    using aT unfolding closed_from_def by auto
  then show ?case
    using runs_miss.IH(2) runs_miss.prems(2) by simp
qed auto

inductive_cases runs_PtrE: "runs h n info (Ptr a # ds) info'"
inductive_cases runs_NilInterfaceE: "runs h n info (NilInterface # ds) info'"
inductive_cases runs_NilPointerE: "runs h n info (NilPointer # ds) info'"

text \<open>Two runs over the same references, the second from a closed superset of the
  first one's cache: the second ends in a closed superset of where the first ends.\<close>

lemma runs_simulation:
  "runs h n A ds A' \<Longrightarrow> runs h m B ds B' \<Longrightarrow> closed_from h (keys A) (keys B) \<Longrightarrow>
   closed_from h (keys A') (keys B')"
proof (induction arbitrary: m B B' rule: runs.induct)
  case (runs_done n info)
  then show ?case by (auto elim: runs.cases)
next
  case (runs_nil_interface n info ds info')
  then show ?case by (auto elim: runs_NilInterfaceE)
next
  case (runs_nil_pointer n info ds info')
  then show ?case by (auto elim: runs_NilPointerE)
next
  case (runs_hit a info n ds info')
  from runs_hit.prems(2) runs_hit.hyps(1) have "a \<in> keys B"
    unfolding closed_from_def by blast
  with runs_hit.prems(1) have "runs h m (allocate B) ds B'"
    by (auto elim: runs_PtrE)
  then show ?case using runs_hit.IH runs_hit.prems(2) by simp
next
  case (runs_miss a info n info1 v ds info')
  show ?case
  proof (cases "a \<in> keys B")
    case True
    with runs_miss.prems(1) have rest: "runs h m (allocate B) ds B'"
      by (auto elim: runs_PtrE)
    from True runs_miss.hyps(1) runs_miss.prems(2)
    have kids: "\<forall>b. Ptr b \<in> set (refs (h a)) \<longrightarrow> b \<in> keys B"
      unfolding closed_from_def by blast
    have "closed_from h (keys info1) (keys B)"
      using runs_within [OF runs_miss.hyps(2)] runs_miss.prems(2) kids by simp
    then have "closed_from h (keys (store a v info1)) (keys (allocate B))"
      using True unfolding closed_from_def by auto
    then show ?thesis using runs_miss.IH(2) rest by blast
  next
    case False
    with runs_miss.prems(1) obtain m' B1 w where
      inner: "runs h m' (invoked a (allocate B)) (refs (h a)) B1"
      and rest: "runs h m (store a w B1) ds B'"
      by (auto elim: runs_PtrE)
    have "closed_from h (keys info1) (keys B1)"
      using runs_miss.IH(1) [OF inner] runs_miss.prems(2) by simp
    then have "closed_from h (keys (store a v info1)) (keys (store a w B1))"
      unfolding closed_from_def by auto
    then show ?thesis using runs_miss.IH(2) rest by blast
  qed
qed

text \<open>A run that caches \<open>d\<close>, not cached before, contains a complete run of the body
  of \<open>d\<close> with less fuel.\<close>

lemma runs_nested:
  "runs h n info ds info' \<Longrightarrow> d \<notin> keys info \<Longrightarrow> d \<in> keys info' \<Longrightarrow>
   closed_from h S (keys info) \<Longrightarrow>
   \<exists>j info2 info3. j < n \<and> closed_from h S (keys info2) \<and> d \<notin> keys info2
      \<and> runs h j info2 (refs (h d)) info3"
proof (induction rule: runs.induct)
  case (runs_miss a info n info1 v ds info')
  show ?case
  proof (cases "a = d")
    case True
    have "closed_from h S (keys (invoked a (allocate info)))"
      using runs_miss.prems(3) by simp
    moreover have "d \<notin> keys (invoked a (allocate info))"
      using runs_miss.prems(1) by simp
    ultimately show ?thesis
      using runs_miss.hyps(2) True by blast
  next
    case False
    show ?thesis
    proof (cases "d \<in> keys info1")
      case True
      have "\<exists>j info2 info3. j < n \<and> closed_from h S (keys info2) \<and> d \<notin> keys info2
          \<and> runs h j info2 (refs (h d)) info3"
        using runs_miss.IH(1) runs_miss.prems(1,3) True by simp
      then show ?thesis using less_Suc_eq by blast
    next
      case notyet: False
      have inner: "closed_from h (keys info) (keys info1)"
        using runs_closed [OF runs_miss.hyps(2)] by simp
      have kids: "\<forall>b. Ptr b \<in> set (refs (h a)) \<longrightarrow> b \<in> keys info1"
        using runs_cached [OF runs_miss.hyps(2)] by blast
      have "closed_from h (keys info) (insert a (keys info1))"
        using inner kids unfolding closed_from_def by blast
      with runs_miss.prems(3) have "closed_from h S (keys (store a v info1))"
        using closed_from_trans by fastforce
      moreover have "d \<notin> keys (store a v info1)"
        using notyet False by simp
      ultimately show ?thesis
        using runs_miss.IH(2) runs_miss.prems(2) by blast
    qed
  qed
qed auto

text \<open>The body of a descriptor never caches the descriptor itself: a body that did would
  contain a complete run of the same body with less fuel that does so too.\<close>

lemma runs_body_not_self:
  "runs h n info (refs (h d)) info' \<Longrightarrow> d \<notin> keys info \<Longrightarrow> d \<notin> keys info'"
proof (induction n arbitrary: info info' rule: less_induct)
  case (less n)
  show ?case
  proof
    assume cached: "d \<in> keys info'"
    from runs_nested [OF less.prems(1) less.prems(2) cached closed_from_refl]
    obtain j info2 info3 where j: "j < n"
      and cl: "closed_from h (keys info) (keys info2)"
      and un: "d \<notin> keys info2"
      and inner: "runs h j info2 (refs (h d)) info3"
      by blast
    from less.IH [OF j inner un] have "d \<notin> keys info3" .
    moreover from runs_simulation [OF less.prems(1) inner cl]
    have "keys info' \<subseteq> keys info3"
      unfolding closed_from_def by blast
    ultimately show False using cached by blast
  qed
qed

text \<open>Every key a run adds to the cache had its own \<^verbatim>\<open>mdNode\<close> invoked once, and no other
  was invoked.\<close>

lemma runs_calls:
  "runs h n info ds info' \<Longrightarrow>
   count_list (calls info') d =
     count_list (calls info) d + (if d \<in> keys info' - keys info then 1 else 0)"
proof (induction rule: runs.induct)
  case (runs_miss a info n info1 v ds info')
  have self: "a \<notin> keys info1"
    using runs_body_not_self [OF runs_miss.hyps(2)] runs_miss.hyps(1) by simp
  have m1: "keys info \<subseteq> keys info1"
    using runs_mono [OF runs_miss.hyps(2)] by simp
  have m2: "insert a (keys info1) \<subseteq> keys info'"
    using runs_mono [OF runs_miss.hyps(3)] by simp
  show ?case
  proof (cases "d = a")
    case True
    then show ?thesis
      using runs_miss.IH self m1 m2 runs_miss.hyps(1) by auto
  next
    case False
    then show ?thesis
      using runs_miss.IH m1 m2 by (auto split: if_splits)
  qed
qed auto

text \<open>On a descriptor that refers to itself the lowering never returns, whatever the
  fuel.\<close>

lemma self_reference_never_returns:
  "0 \<notin> keys info \<Longrightarrow> DebugInfo_MDNode n cyclic_heap info (Ptr 0) = None"
proof (induction n arbitrary: info)
  case 0
  then have "entries info 0 = None" by (auto simp: keys_def)
  then show ?case by (rule MDNode_miss_0)
next
  case (Suc n)
  from Suc.prems have un: "entries info 0 = None"
    by (auto simp: keys_def)
  have "0 \<notin> keys (invoked 0 (allocate info))"
    using Suc.prems by simp
  from Suc.IH [OF this]
  have "mdNode n cyclic_heap (invoked 0 (allocate info)) (cyclic_heap 0) = None"
    by (simp add: cyclic_heap_def box_def)
  with un show ?case
    by (simp add: MDNode_miss_Suc del: mdNode.simps DebugInfo_MDNode.simps)
qed

subsection \<open>Arithmetic of the combined line field\<close>

lemma line_field_unat:
  "unat (ucast (L :: uint32) OR push_bit 24 (ucast (A :: uint32)) :: uint64) =
     unat L OR push_bit 24 (unat A)"
proof -
  have A32: "unat A < 2 ^ 32"
    using unsigned_less [of A] by simp
  then have "unat A * 2 ^ 24 < 2 ^ 32 * (2 ^ 24 :: nat)"
    by simp
  then have "push_bit 24 (unat A) < (2 ^ 64 :: nat)"
    by (simp add: push_bit_eq_mult)
  then have a: "take_bit 64 (push_bit 24 (unat A)) = push_bit 24 (unat A)"
    by (simp add: take_bit_nat_eq_self)
  have "unat L < 2 ^ 32"
    using unsigned_less [of L] by simp
  then have "unat L < 2 ^ 64" by simp
  then have b: "take_bit 64 (unat L) = unat L"
    by (simp add: take_bit_nat_eq_self)
  from A32 have "unat A < 2 ^ 64" by simp
  then have c: "take_bit 64 (unat A) = unat A"
    by (simp add: take_bit_nat_eq_self)
  show ?thesis
    by (simp add: unsigned_or_eq unsigned_push_bit_eq unsigned_ucast_eq a b c)
qed

section \<open>Lowering returns on graphs without cycles\<close>

lemma refs_mdNode:
  "DebugInfo_MDNodes n h info (refs d) = Some (vs, info') \<Longrightarrow>
   \<exists>v. mdNode n h info d = Some (v, info')"
  by (cases d)
    (auto simp: MDNodes_append simp del: DebugInfo_MDNode.simps split: Option.bind_splits)

lemma lowering_returns:
  "ranked h r \<Longrightarrow> \<forall>d \<in> set ds. below r n d \<Longrightarrow>
   \<exists>vs info'. DebugInfo_MDNodes n h info ds = Some (vs, info')"
proof (induction n arbitrary: info ds)
  case 0
  have "\<exists>vs info'. DebugInfo_MDNodes 0 h info ds = Some (vs, info')"
    if "\<forall>d \<in> set ds. below r 0 d" for info ds
    using that
  proof (induction ds arbitrary: info)
    case Nil
    then show ?case by simp
  next
    case (Cons d ds)
    then have "d = NilInterface \<or> d = NilPointer" by (cases d) auto
    then have "DebugInfo_MDNode 0 h info d = Some (NilValue, info)" by auto
    moreover from Cons obtain vs info' where "DebugInfo_MDNodes 0 h info ds = Some (vs, info')"
      by fastforce
    ultimately show ?case by (simp del: DebugInfo_MDNode.simps)
  qed
  with 0 show ?case by blast
next
  case (Suc n)
  have one: "\<exists>v info'. DebugInfo_MDNode (Suc n) h info d = Some (v, info')"
    if "below r (Suc n) d" for info d
  proof (cases d)
    case (Ptr a)
    show ?thesis
    proof (cases "entries info a")
      case (Some w)
      then show ?thesis using Ptr MDNode_hit by blast
    next
      case None
      have "\<forall>d \<in> set (refs (h a)). below r n d"
      proof
        fix e assume e: "e \<in> set (refs (h a))"
        show "below r n e"
        proof (cases e)
          case (Ptr b)
          with e Suc.prems(1) have "r b < r a" unfolding ranked_def by blast
          moreover from that \<open>d = Ptr a\<close> have "r a < Suc n" by simp
          ultimately show ?thesis using Ptr by simp
        qed simp_all
      qed
      from Suc.IH [OF Suc.prems(1) this] obtain vs info1 where
        "DebugInfo_MDNodes n h (invoked a (allocate info)) (refs (h a)) = Some (vs, info1)"
        by blast
      from refs_mdNode [OF this] obtain v where
        "mdNode n h (invoked a (allocate info)) (h a) = Some (v, info1)"
        by blast
      with None Ptr show ?thesis
        by (simp add: MDNode_miss_Suc del: DebugInfo_MDNode.simps mdNode.simps)
    qed
  qed simp_all
  show ?case using Suc.prems(2)
  proof (induction ds arbitrary: info)
    case Nil
    then show ?case by simp
  next
    case (Cons d ds)
    from Cons.prems one obtain v info1 where
      "DebugInfo_MDNode (Suc n) h info d = Some (v, info1)"
      by fastforce
    moreover from Cons obtain vs info' where
      "DebugInfo_MDNodes (Suc n) h info1 ds = Some (vs, info')"
      by fastforce
    ultimately show ?case by (simp del: DebugInfo_MDNode.simps)
  qed
qed

lemma MDNode_returns:
  assumes "ranked h r" and "r a < n"
  shows "\<exists>v info'. DebugInfo_MDNode n h info (Ptr a) = Some (v, info')"
proof -
  from lowering_returns [OF assms(1), of "[Ptr a]" n info] assms(2)
  obtain vs info' where "DebugInfo_MDNodes n h info [Ptr a] = Some (vs, info')"
    by auto
  then show ?thesis
    by (auto simp del: DebugInfo_MDNode.simps split: Option.bind_splits)
qed

lemma mdNode_returns:
  assumes "ranked h r" and "\<forall>e \<in> set (refs d). below r n e"
  shows "\<exists>v info'. mdNode n h info d = Some (v, info')"
proof -
  from lowering_returns [OF assms] obtain vs info' where
    "DebugInfo_MDNodes n h info (refs d) = Some (vs, info')"
    by blast
  from refs_mdNode [OF this] show ?thesis by blast
qed

lemma ranked_example: "ranked example_heap example_rank"
  by (auto simp: ranked_def example_heap_def example_rank_def example_int_def box_def
      split: if_splits)

lemma below_example_int: "\<forall>e \<in> set (refs (BasicType example_int)). below example_rank (Suc 0) e"
  by (simp add: example_int_def box_def example_rank_def)

lemma below_example_local: "\<forall>e \<in> set (refs (LocalVariable example_local)). below example_rank 0 e"
  by (simp add: example_local_def)

section \<open>The history is not read\<close>

lemma same_result_Some: "cache i = cache j \<Longrightarrow> same_result (Some (v, i)) (Some (v, j))"
  by (simp add: same_result_def)

lemma same_result_bind:
  assumes "same_result m m'"
    and step: "\<And>v i j. cache i = cache j \<Longrightarrow> same_result (f v i) (g v j)"
  shows "same_result (m \<bind> (\<lambda>(v, i). f v i)) (m' \<bind> (\<lambda>(v, i). g v i))"
proof (cases m)
  case None
  with assms(1) have "m' = None"
    by (simp add: same_result_def split: option.splits)
  with None show ?thesis by (simp add: same_result_def)
next
  case (Some p)
  obtain v i where p: "p = (v, i)" by (cases p)
  with Some assms(1) obtain j where "m' = Some (v, j)" and "cache i = cache j"
    by (auto simp: same_result_def split: option.splits)
  with Some p step [of i j v] show ?thesis by simp
qed

lemma cache_eq_entries: "cache i = cache j \<Longrightarrow> entries i = entries j"
  by (simp add: entries_def)

lemma cache_allocate: "cache i = cache j \<Longrightarrow> cache (allocate i) = cache (allocate j)"
  by (simp add: allocate_def split: option.splits)

lemma cache_invoked: "cache (invoked a i) = cache i"
  by (simp add: invoked_def)

lemma same_MDNodes:
  assumes one: "\<And>i j d. cache i = cache j \<Longrightarrow>
      same_result (DebugInfo_MDNode n h i d) (DebugInfo_MDNode n h j d)"
  shows "cache i = cache j \<Longrightarrow>
      same_result (DebugInfo_MDNodes n h i ds) (DebugInfo_MDNodes n h j ds)"
proof (induction ds arbitrary: i j)
  case Nil
  then show ?case by (simp add: same_result_Some)
next
  case (Cons d ds)
  show ?case
    unfolding DebugInfo_MDNodes.simps
    by (intro same_result_bind same_result_Some one Cons.IH Cons.prems)
qed

lemma same_mdNode:
  assumes one: "\<And>i j d. cache i = cache j \<Longrightarrow>
      same_result (DebugInfo_MDNode n h i d) (DebugInfo_MDNode n h j d)"
    and eq: "cache i = cache j"
  shows "same_result (mdNode n h i d) (mdNode n h j d)"
  using eq
  by (cases d; simp only: mdNode.simps;
      intro same_result_bind same_result_Some one same_MDNodes [OF one])

lemma same_result_store:
  "same_result x y \<Longrightarrow>
   same_result (case x of None \<Rightarrow> None | Some (v, i) \<Rightarrow> Some (v, store a v i))
               (case y of None \<Rightarrow> None | Some (v, i) \<Rightarrow> Some (v, store a v i))"
  by (cases x; cases y) (auto simp: same_result_def store_def entries_def)

lemma same_MDNode_step:
  assumes body: "\<And>i j. cache i = cache j \<Longrightarrow>
      same_result (mdNode n h i (h a)) (mdNode n h j (h a))"
    and eq: "cache i = cache j"
  shows "same_result (DebugInfo_MDNode (Suc n) h i (Ptr a))
      (DebugInfo_MDNode (Suc n) h j (Ptr a))"
proof (cases "entries i a")
  case None
  then have nj: "entries j a = None"
    using cache_eq_entries [OF eq] by simp
  have "cache (invoked a (allocate i)) = cache (invoked a (allocate j))"
    using cache_allocate [OF eq] by (simp add: cache_invoked)
  then have "same_result (mdNode n h (invoked a (allocate i)) (h a))
      (mdNode n h (invoked a (allocate j)) (h a))"
    by (rule body)
  then show ?thesis
    unfolding MDNode_miss_Suc [OF None] MDNode_miss_Suc [OF nj]
    by (rule same_result_store)
next
  case (Some v)
  then have sj: "entries j a = Some v"
    using cache_eq_entries [OF eq] by simp
  show ?thesis
    unfolding MDNode_hit [OF Some] MDNode_hit [OF sj]
    by (rule same_result_Some) (rule cache_allocate [OF eq])
qed

lemma same_MDNode_0:
  assumes eq: "cache i = cache j"
  shows "same_result (DebugInfo_MDNode 0 h i (Ptr a)) (DebugInfo_MDNode 0 h j (Ptr a))"
proof (cases "entries i a")
  case None
  then have nj: "entries j a = None"
    using cache_eq_entries [OF eq] by simp
  show ?thesis
    unfolding MDNode_miss_0 [OF None] MDNode_miss_0 [OF nj]
    by (simp add: same_result_def)
next
  case (Some v)
  then have sj: "entries j a = Some v"
    using cache_eq_entries [OF eq] by simp
  show ?thesis
    unfolding MDNode_hit [OF Some] MDNode_hit [OF sj]
    by (rule same_result_Some) (rule cache_allocate [OF eq])
qed

text \<open>Lowering through two states with the same cache gives the same node and the same
  cache, or returns in neither: what the history holds has no influence.\<close>

lemma calls_not_read:
  "cache i = cache j \<Longrightarrow>
   same_result (DebugInfo_MDNode n h i d) (DebugInfo_MDNode n h j d)"
proof (induction n arbitrary: i j d)
  case 0
  show ?case
  proof (cases d)
    case NilInterface
    then show ?thesis using 0 by (simp add: same_result_def)
  next
    case NilPointer
    then show ?thesis using 0 by (simp add: same_result_def)
  next
    case (Ptr a)
    then show ?thesis using same_MDNode_0 [OF 0] by blast
  qed
next
  case (Suc n)
  show ?case
  proof (cases d)
    case NilInterface
    then show ?thesis using Suc.prems by (simp add: same_result_def)
  next
    case NilPointer
    then show ?thesis using Suc.prems by (simp add: same_result_def)
  next
    case (Ptr a)
    have "\<And>i j. cache i = cache j \<Longrightarrow>
        same_result (mdNode n h i (h a)) (mdNode n h j (h a))"
      by (rule same_mdNode [OF Suc.IH])
    from same_MDNode_step [OF this Suc.prems] Ptr show ?thesis by blast
  qed
qed

section \<open>Memoization\<close>

text \<open>
  Claim C1, as amended. For every non-nil descriptor \<open>d\<close> and every cache on which
  lowering \<open>d\<close> returns (it does on every descriptor graph without reference cycles,
  given fuel above the rank of \<open>d\<close>): a second lowering of \<open>d\<close> through the resulting
  cache returns the identical node (with any fuel) and changes nothing, the cache maps the
  identity of \<open>d\<close> to that node, and across the two calls the own \<^verbatim>\<open>mdNode\<close> of \<open>d\<close>
  is invoked exactly once when \<open>d\<close> had no entry before the first call, and not at all
  when it had one. Since the second call leaves \<open>info1\<close> as it is, the history after
  both calls is \<open>calls info1\<close>.
\<close>

theorem MDNode_memoized:
  "(ranked h r \<and> r a < n \<longrightarrow>
      (\<exists>w info2. DebugInfo_MDNode n h info (Ptr a) = Some (w, info2)))
   \<and> (DebugInfo_MDNode n h info (Ptr a) = Some (v, info1) \<longrightarrow>
        DebugInfo_MDNode m h info1 (Ptr a) = Some (v, info1)
      \<and> entries info1 a = Some v
      \<and> count_list (calls info1) a =
          count_list (calls info) a + (if entries info a = None then 1 else 0))"
proof (intro conjI impI)
  assume "ranked h r \<and> r a < n"
  then show "\<exists>w info2. DebugInfo_MDNode n h info (Ptr a) = Some (w, info2)"
    using MDNode_returns by blast
next
  assume run: "DebugInfo_MDNode n h info (Ptr a) = Some (v, info1)"
  have c: "entries info1 a = Some v \<and> allocate info1 = info1"
    using run by (auto simp: Let_def split: option.splits nat.splits Option.bind_splits)
  then show "entries info1 a = Some v" by simp
  from c show "DebugInfo_MDNode m h info1 (Ptr a) = Some (v, info1)"
    by (simp add: MDNode_hit del: DebugInfo_MDNode.simps)
  have "DebugInfo_MDNodes n h info [Ptr a] = Some ([v], info1)"
    using run by (simp del: DebugInfo_MDNode.simps)
  then have "runs h n info [Ptr a] info1"
    by (rule runs_sound)
  from runs_calls [OF this, of a] c
  show "count_list (calls info1) a =
      count_list (calls info) a + (if entries info a = None then 1 else 0)"
    by (auto simp: keys_def)
qed

theorem MDNode_memoized_witness:
  "(ranked example_heap example_rank \<and> example_rank 0 < Suc (Suc 0))
   \<and> DebugInfo_MDNode (Suc (Suc 0)) example_heap empty_info (Ptr 0) =
       Some (example_int_node, int_lowered)
   \<and> DebugInfo_MDNode 0 example_heap int_lowered (Ptr 0) = Some (example_int_node, int_lowered)
   \<and> entries int_lowered 0 = Some example_int_node
   \<and> count_list (calls int_lowered) 0 = count_list (calls empty_info) 0 + 1"
proof -
  have r: "ranked example_heap example_rank \<and> example_rank 0 < Suc (Suc 0)"
    using ranked_example by (simp add: example_rank_def)
  have e: "entries empty_info 0 = None"
    by (simp add: empty_info_def entries_def)
  note t = MDNode_memoized [where h = example_heap and r = example_rank and a = 0
      and n = "Suc (Suc 0)" and info = empty_info and v = example_int_node
      and ?info1.0 = int_lowered and m = 0]
  from t lower_int_cold e r show ?thesis
    by (simp del: DebugInfo_MDNode.simps)
qed

text \<open>
  Claim C1 as stated fails on a cache that already holds \<open>d\<close>. Lowering the file of
  the example once from the empty cache gives \<open>file_lowered\<close>; lowering it through
  \<open>file_lowered\<close> returns the node and \<open>file_lowered\<close> itself, so two such calls in a
  row end in \<open>file_lowered\<close>, whose history holds pointer 1 once, from the first call of
  all: across the two calls its \<^verbatim>\<open>mdNode\<close> is not invoked.
\<close>

theorem MDNode_cached_not_invoked:
  "DebugInfo_MDNode (Suc 0) example_heap empty_info (Ptr 1) =
     Some (example_file_node, file_lowered)
   \<and> DebugInfo_MDNode (Suc 0) example_heap file_lowered (Ptr 1) =
     Some (example_file_node, file_lowered)
   \<and> calls file_lowered = [1]
   \<and> count_list (calls file_lowered) 1 \<noteq> count_list (calls file_lowered) 1 + 1"
  using lower_file_cold lower_file_warm
  by (simp add: file_lowered_def del: DebugInfo_MDNode.simps)

text \<open>
  Claim C2. For every cache state and every fuel, lowering the nil interface, a nil
  pointer boxed in an interface, or a nil \<^verbatim>\<open>*FileDescriptor\<close> field returns the empty
  node \<^verbatim>\<open>Value{nil}\<close> and the cache exactly as it was, the nil map included.
\<close>

theorem MDNode_nil:
  "DebugInfo_MDNode n h info NilInterface = Some (NilValue, info)
   \<and> DebugInfo_MDNode n h info NilPointer = Some (NilValue, info)
   \<and> DebugInfo_MDNode n h info (box None) = Some (NilValue, info)"
  by (simp add: box_def)

section \<open>Field layouts\<close>

text \<open>
  Claim C3. Lowering a BasicType descriptor returns exactly when lowering its file and
  then its context returns, and the node then has the ten fields tag+version, file,
  context, name, line, size, alignment, offset, flags, type encoding, in this order, the
  first being the constant \<^verbatim>\<open>(12<<16) + 0x24\<close>. The type \<^verbatim>\<open>int\<close> of the example (size 32,
  alignment 32, offset 0, signed, flags 0, file \<^verbatim>\<open>main.x\<close>, line 5) lowers to such a
  node. On a descriptor graph without reference cycles the lowering returns, given fuel
  above the ranks of file and context.
\<close>

theorem BasicType_mdNode_fields:
  "(mdNode n h info (BasicType d) = Some (v, info') \<longleftrightarrow>
     (\<exists>file ctx info1.
        DebugInfo_MDNode n h info (box (bt_File d)) = Some (file, info1)
      \<and> DebugInfo_MDNode n h info1 (bt_Context d) = Some (ctx, info')
      \<and> v = MDNode [
              ConstInt Int32Type (push_bit 16 12 + 0x24) False,
              file,
              ctx,
              MDString (bt_Name d),
              ConstInt Int32Type (ucast (bt_Line d)) False,
              ConstInt Int64Type (bt_Size d) False,
              ConstInt Int64Type (bt_Alignment d) False,
              ConstInt Int64Type (bt_Offset d) False,
              ConstInt Int32Type (ucast (bt_Flags d)) False,
              ConstInt Int32Type (ucast (bt_TypeEncoding d)) False]))
   \<and> (ranked h r \<and> (\<forall>e \<in> set (refs (BasicType d)). below r n e) \<longrightarrow>
        (\<exists>w info2. mdNode n h info (BasicType d) = Some (w, info2)))
   \<and> mdNode (Suc 0) example_heap empty_info (BasicType example_int) =
       Some (MDNode [
              ConstInt Int32Type (push_bit 16 12 + 0x24) False,
              MDNode [MDString ''main.x'', MDString ''''],
              NilValue,
              MDString ''int'',
              ConstInt Int32Type 5 False,
              ConstInt Int64Type 32 False,
              ConstInt Int64Type 32 False,
              ConstInt Int64Type 0 False,
              ConstInt Int32Type 0 False,
              ConstInt Int32Type 5 False], file_lowered)"
proof -
  have "mdNode n h info (BasicType d) = Some (v, info') \<longleftrightarrow>
     (\<exists>file ctx info1.
        DebugInfo_MDNode n h info (box (bt_File d)) = Some (file, info1)
      \<and> DebugInfo_MDNode n h info1 (bt_Context d) = Some (ctx, info')
      \<and> v = MDNode [
              ConstInt Int32Type (push_bit 16 12 + 0x24) False,
              file,
              ctx,
              MDString (bt_Name d),
              ConstInt Int32Type (ucast (bt_Line d)) False,
              ConstInt Int64Type (bt_Size d) False,
              ConstInt Int64Type (bt_Alignment d) False,
              ConstInt Int64Type (bt_Offset d) False,
              ConstInt Int32Type (ucast (bt_Flags d)) False,
              ConstInt Int32Type (ucast (bt_TypeEncoding d)) False])"
    by (auto simp: LLVMDebugVersion_def DW_TAG_base_type_def simp del: DebugInfo_MDNode.simps
        split: Option.bind_splits)
  moreover have "mdNode (Suc 0) example_heap empty_info (BasicType example_int) =
       Some (MDNode [
              ConstInt Int32Type (push_bit 16 12 + 0x24) False,
              MDNode [MDString ''main.x'', MDString ''''],
              NilValue,
              MDString ''int'',
              ConstInt Int32Type 5 False,
              ConstInt Int64Type 32 False,
              ConstInt Int64Type 32 False,
              ConstInt Int64Type 0 False,
              ConstInt Int32Type 0 False,
              ConstInt Int32Type 5 False], file_lowered)"
    using lower_int_direct by (simp add: example_int_node_def example_file_node_def)
  moreover have "ranked h r \<and> (\<forall>e \<in> set (refs (BasicType d)). below r n e) \<longrightarrow>
        (\<exists>w info2. mdNode n h info (BasicType d) = Some (w, info2))"
    using mdNode_returns by blast
  ultimately show ?thesis by blast
qed

theorem BasicType_mdNode_fields_witness:
  "(ranked example_heap example_rank
    \<and> list_all (below example_rank (Suc 0)) (refs (BasicType example_int))
    \<and> (\<exists>w info2. mdNode (Suc 0) example_heap empty_info (BasicType example_int) = Some (w, info2)))
   \<and> DebugInfo_MDNode (Suc 0) example_heap empty_info (box (bt_File example_int)) =
     Some (example_file_node, file_lowered)
   \<and> DebugInfo_MDNode (Suc 0) example_heap file_lowered (bt_Context example_int) =
     Some (NilValue, file_lowered)
   \<and> mdNode (Suc 0) example_heap empty_info (BasicType example_int) =
     Some (example_int_node, file_lowered)"
proof -
  have f: "DebugInfo_MDNode (Suc 0) example_heap empty_info (box (bt_File example_int)) =
      Some (example_file_node, file_lowered)"
    using lower_file_cold by (simp add: example_int_def box_def del: DebugInfo_MDNode.simps)
  have c: "DebugInfo_MDNode (Suc 0) example_heap file_lowered (bt_Context example_int) =
      Some (NilValue, file_lowered)"
    by (simp add: example_int_def)
  have v: "example_int_node = MDNode [
              ConstInt Int32Type (push_bit 16 12 + 0x24) False,
              example_file_node,
              NilValue,
              MDString (bt_Name example_int),
              ConstInt Int32Type (ucast (bt_Line example_int)) False,
              ConstInt Int64Type (bt_Size example_int) False,
              ConstInt Int64Type (bt_Alignment example_int) False,
              ConstInt Int64Type (bt_Offset example_int) False,
              ConstInt Int32Type (ucast (bt_Flags example_int)) False,
              ConstInt Int32Type (ucast (bt_TypeEncoding example_int)) False]"
    by (simp add: example_int_def example_int_node_def DW_ATE_signed_def)
  have "mdNode (Suc 0) example_heap empty_info (BasicType example_int) =
      Some (example_int_node, file_lowered)"
    by (rule BasicType_mdNode_fields [THEN conjunct1, THEN iffD2]) (use f c v in blast)
  moreover have "\<exists>w info2.
      mdNode (Suc 0) example_heap empty_info (BasicType example_int) = Some (w, info2)"
    using BasicType_mdNode_fields [THEN conjunct2, THEN conjunct1, of example_heap example_rank
        example_int "Suc 0" empty_info]
      ranked_example below_example_int by blast
  ultimately show ?thesis
    using f c ranked_example below_example_int by (simp add: list_all_iff)
qed

text \<open>
  Claim C4, as amended. For every descriptor variant other than File and Line, the first
  field of the lowered node is the integer constant \<^verbatim>\<open>(12<<16) + tag\<close> for the tag of the
  descriptor. A File lowers to the two strings file name and directory, and the first
  field of a Line is its line number; neither carries a tag. On a descriptor graph without
  reference cycles the lowering returns, given fuel above the ranks of the references.
\<close>

theorem mdNode_first_field:
  "(ranked h r \<and> (\<forall>e \<in> set (refs d). below r n e) \<longrightarrow>
      (\<exists>w info2. mdNode n h info d = Some (w, info2)))
   \<and> (mdNode n h info d = Some (v, info') \<longrightarrow>
        ((\<forall>p. d \<noteq> File p) \<and> (\<forall>l. d \<noteq> Line l) \<longrightarrow>
            (\<exists>t rest. Tag d = Inr t
               \<and> v = MDNode (ConstInt Int32Type (push_bit 16 12 + ucast t) False # rest)))
      \<and> (\<forall>p. d = File p \<longrightarrow> (\<exists>f dir. v = MDNode [MDString f, MDString dir]))
      \<and> (\<forall>l. d = Line l \<longrightarrow>
            (\<exists>rest. v = MDNode (ConstInt Int32Type (ucast (ln_Line l)) False # rest))))"
proof (intro conjI impI allI)
  assume "ranked h r \<and> (\<forall>e \<in> set (refs d). below r n e)"
  then show "\<exists>w info2. mdNode n h info d = Some (w, info2)"
    using mdNode_returns by blast
next
  assume run: "mdNode n h info d = Some (v, info')"
    and "(\<forall>p. d \<noteq> File p) \<and> (\<forall>l. d \<noteq> Line l)"
  then show "\<exists>t rest. Tag d = Inr t
      \<and> v = MDNode (ConstInt Int32Type (push_bit 16 12 + ucast t) False # rest)"
    by (cases d)
      (auto simp: LLVMDebugVersion_def add.commute simp del: DebugInfo_MDNode.simps
        split: Option.bind_splits)
next
  fix p assume "mdNode n h info d = Some (v, info')" and "d = File p"
  then have "v = FileDescriptor_mdNode p" by simp
  then show "\<exists>f dir. v = MDNode [MDString f, MDString dir]"
    using FileDescriptor_mdNode_parts [of p] by blast
next
  fix l assume "mdNode n h info d = Some (v, info')" and "d = Line l"
  then show "\<exists>rest. v = MDNode (ConstInt Int32Type (ucast (ln_Line l)) False # rest)"
    by (auto simp del: DebugInfo_MDNode.simps split: Option.bind_splits)
qed

theorem mdNode_first_field_witness:
  "(ranked example_heap example_rank
    \<and> list_all (below example_rank (Suc 0)) (refs (BasicType example_int))
    \<and> mdNode (Suc 0) example_heap empty_info (BasicType example_int) =
        Some (example_int_node, file_lowered)
    \<and> (\<exists>t rest. Tag (BasicType example_int) = Inr t
         \<and> example_int_node = MDNode (ConstInt Int32Type (push_bit 16 12 + ucast t) False # rest)))
   \<and> (mdNode 0 example_heap empty_info (File ''main.x'') = Some (example_file_node, empty_info)
    \<and> (\<exists>f dir. example_file_node = MDNode [MDString f, MDString dir]))
   \<and> (mdNode 0 example_heap empty_info (Line example_line) =
        Some (MDNode [ConstInt Int32Type 7 False, ConstInt Int32Type 3 False, NilValue, NilValue],
              empty_info)
    \<and> (\<exists>rest. MDNode [ConstInt Int32Type 7 False, ConstInt Int32Type 3 False, NilValue, NilValue]
          = MDNode (ConstInt Int32Type (ucast (ln_Line example_line)) False # rest)))"
proof -
  have a: "mdNode 0 example_heap empty_info (File ''main.x'') = Some (example_file_node, empty_info)"
    by (simp add: file_main_x)
  have b: "mdNode 0 example_heap empty_info (Line example_line) =
      Some (MDNode [ConstInt Int32Type 7 False, ConstInt Int32Type 3 False, NilValue, NilValue],
            empty_info)"
    by (simp add: example_line_def)
  have "\<exists>w info2. mdNode (Suc 0) example_heap empty_info (BasicType example_int) = Some (w, info2)"
    using mdNode_first_field [THEN conjunct1, of example_heap example_rank
        "BasicType example_int" "Suc 0" empty_info]
      ranked_example below_example_int by blast
  moreover note
    mdNode_first_field [THEN conjunct2, rule_format, OF lower_int_direct]
    mdNode_first_field [THEN conjunct2, rule_format, OF a]
    mdNode_first_field [THEN conjunct2, rule_format, OF b]
  ultimately show ?thesis
    using lower_int_direct a b ranked_example below_example_int
    by (simp add: list_all_iff del: mdNode.simps)
qed

text \<open>
  Claim C4 as stated fails for a File: its node is the pair of strings, and the first
  field is the file name, not a constant made from \<^verbatim>\<open>DW_TAG_file_type\<close>.
\<close>

theorem File_first_field_not_tag:
  "mdNode 0 example_heap empty_info (File ''main.x'') =
     Some (MDNode [MDString ''main.x'', MDString ''''], empty_info)
   \<and> Tag (File ''main.x'') = Inr DW_TAG_file_type
   \<and> MDString ''main.x'' \<noteq> ConstInt Int32Type (push_bit 16 12 + ucast DW_TAG_file_type) False"
  using file_main_x by (simp add: example_file_node_def)

text \<open>
  Claim C5. Lowering a LocalVariable descriptor with line \<open>L\<close> and argument index \<open>A\<close>
  returns exactly when lowering its context, file and type returns, and the fifth field of
  the node is then the integer constant \<^verbatim>\<open>L | (A << 24)\<close>, computed at 64 bits, where the
  shift cannot overflow. With line 10 and argument index 2 the field is
  \<^verbatim>\<open>10 | (2 << 24)\<close>. On a descriptor graph without reference cycles the lowering
  returns, given fuel above the ranks of context, file and type.
\<close>

theorem LocalVariable_line_field:
  "(mdNode n h info (LocalVariable d) = Some (v, info') \<longleftrightarrow>
     (\<exists>ctx file ty info1 info2.
        DebugInfo_MDNode n h info (lv_Context d) = Some (ctx, info1)
      \<and> DebugInfo_MDNode n h info1 (lv_File d) = Some (file, info2)
      \<and> DebugInfo_MDNode n h info2 (lv_Type d) = Some (ty, info')
      \<and> v = MDNode [
              ConstInt Int32Type (ucast (lv_tag d) + push_bit 16 12) False,
              ctx,
              MDString (lv_Name d),
              file,
              ConstInt Int32Type (ucast (lv_Line d) OR push_bit 24 (ucast (lv_Argument d))) False,
              ty,
              ConstNull Int32Type,
              ConstNull Int32Type]))
   \<and> (ranked h r \<and> (\<forall>e \<in> set (refs (LocalVariable d)). below r n e) \<longrightarrow>
        (\<exists>w info2. mdNode n h info (LocalVariable d) = Some (w, info2)))
   \<and> unat (ucast (lv_Line d) OR push_bit 24 (ucast (lv_Argument d)) :: uint64) =
       unat (lv_Line d) OR push_bit 24 (unat (lv_Argument d))
   \<and> mdNode n h info (LocalVariable example_local) =
       Some (MDNode [
              ConstInt Int32Type (0x101 + push_bit 16 12) False,
              NilValue,
              MDString ''x'',
              NilValue,
              ConstInt Int32Type (10 OR push_bit 24 2) False,
              NilValue,
              ConstNull Int32Type,
              ConstNull Int32Type], info)"
proof -
  have "mdNode n h info (LocalVariable d) = Some (v, info') \<longleftrightarrow>
     (\<exists>ctx file ty info1 info2.
        DebugInfo_MDNode n h info (lv_Context d) = Some (ctx, info1)
      \<and> DebugInfo_MDNode n h info1 (lv_File d) = Some (file, info2)
      \<and> DebugInfo_MDNode n h info2 (lv_Type d) = Some (ty, info')
      \<and> v = MDNode [
              ConstInt Int32Type (ucast (lv_tag d) + push_bit 16 12) False,
              ctx,
              MDString (lv_Name d),
              file,
              ConstInt Int32Type (ucast (lv_Line d) OR push_bit 24 (ucast (lv_Argument d))) False,
              ty,
              ConstNull Int32Type,
              ConstNull Int32Type])"
    by (auto simp: LLVMDebugVersion_def simp del: DebugInfo_MDNode.simps
        split: Option.bind_splits)
  moreover have "mdNode n h info (LocalVariable example_local) =
       Some (MDNode [
              ConstInt Int32Type (0x101 + push_bit 16 12) False,
              NilValue,
              MDString ''x'',
              NilValue,
              ConstInt Int32Type (10 OR push_bit 24 2) False,
              NilValue,
              ConstNull Int32Type,
              ConstNull Int32Type], info)"
    by (simp add: example_local_def LLVMDebugVersion_def DW_TAG_arg_variable_def)
  moreover have "ranked h r \<and> (\<forall>e \<in> set (refs (LocalVariable d)). below r n e) \<longrightarrow>
        (\<exists>w info2. mdNode n h info (LocalVariable d) = Some (w, info2))"
    using mdNode_returns by blast
  ultimately show ?thesis
    using line_field_unat [of "lv_Line d" "lv_Argument d"] by blast
qed

theorem LocalVariable_line_field_witness:
  "(ranked example_heap example_rank
    \<and> list_all (below example_rank 0) (refs (LocalVariable example_local))
    \<and> (\<exists>w info2.
          mdNode 0 example_heap empty_info (LocalVariable example_local) = Some (w, info2)))
   \<and> DebugInfo_MDNode 0 example_heap empty_info (lv_Context example_local) =
     Some (NilValue, empty_info)
   \<and> DebugInfo_MDNode 0 example_heap empty_info (lv_File example_local) =
     Some (NilValue, empty_info)
   \<and> DebugInfo_MDNode 0 example_heap empty_info (lv_Type example_local) =
     Some (NilValue, empty_info)
   \<and> mdNode 0 example_heap empty_info (LocalVariable example_local) =
     Some (example_local_node, empty_info)
   \<and> unat (10 OR push_bit 24 2 :: uint64) = 10 OR push_bit 24 2"
proof -
  have c: "DebugInfo_MDNode 0 example_heap empty_info (lv_Context example_local) =
      Some (NilValue, empty_info)"
    and f: "DebugInfo_MDNode 0 example_heap empty_info (lv_File example_local) =
      Some (NilValue, empty_info)"
    and t: "DebugInfo_MDNode 0 example_heap empty_info (lv_Type example_local) =
      Some (NilValue, empty_info)"
    by (simp_all add: example_local_def)
  have v: "example_local_node = MDNode [
              ConstInt Int32Type (ucast (lv_tag example_local) + push_bit 16 12) False,
              NilValue,
              MDString (lv_Name example_local),
              NilValue,
              ConstInt Int32Type
                (ucast (lv_Line example_local) OR push_bit 24 (ucast (lv_Argument example_local)))
                False,
              NilValue,
              ConstNull Int32Type,
              ConstNull Int32Type]"
    by (simp add: example_local_def example_local_node_def DW_TAG_arg_variable_def)
  have r: "mdNode 0 example_heap empty_info (LocalVariable example_local) =
      Some (example_local_node, empty_info)"
    by (rule LocalVariable_line_field [THEN conjunct1, THEN iffD2]) (use c f t v in blast)
  have "unat (ucast (lv_Line example_local) OR push_bit 24 (ucast (lv_Argument example_local))
          :: uint64) =
      unat (lv_Line example_local) OR push_bit 24 (unat (lv_Argument example_local))"
    by (rule LocalVariable_line_field [THEN conjunct2, THEN conjunct2, THEN conjunct1])
  then have u: "unat (10 OR push_bit 24 2 :: uint64) = 10 OR push_bit 24 2"
    by (simp add: example_local_def)
  have "\<exists>w info2.
      mdNode 0 example_heap empty_info (LocalVariable example_local) = Some (w, info2)"
    using LocalVariable_line_field [THEN conjunct2, THEN conjunct1, of example_heap example_rank
        example_local 0 empty_info]
      ranked_example below_example_local by blast
  with c f t r u show ?thesis
    using ranked_example below_example_local by (simp add: list_all_iff del: mdNode.simps)
qed

text \<open>
  Claim C6. Lowering a File descriptor gives the node of two strings, file name and
  directory: without a separator in the stored path the file name is the whole path and
  the directory is empty; otherwise the path is the directory, one separator, and the
  file name, and the file name has no separator (the split is at the last one and the
  separator ending the directory part is dropped). \<^verbatim>\<open>/a/b/c.x\<close> gives \<^verbatim>\<open>c.x\<close> and
  \<^verbatim>\<open>/a/b\<close>; \<^verbatim>\<open>c.x\<close> gives \<^verbatim>\<open>c.x\<close> and the empty directory.
\<close>

theorem FileDescriptor_mdNode_split:
  "mdNode n h info (File p) = Some (FileDescriptor_mdNode p, info)
   \<and> (\<exists>f d. FileDescriptor_mdNode p = MDNode [MDString f, MDString d]
        \<and> CHR ''/'' \<notin> set f
        \<and> (if CHR ''/'' \<in> set p then p = d @ ''/'' @ f else p = f \<and> d = ''''))
   \<and> FileDescriptor_mdNode ''/a/b/c.x'' = MDNode [MDString ''c.x'', MDString ''/a/b'']
   \<and> FileDescriptor_mdNode ''c.x'' = MDNode [MDString ''c.x'', MDString '''']"
proof -
  have "FileDescriptor_mdNode ''/a/b/c.x'' = MDNode [MDString ''c.x'', MDString ''/a/b'']"
    by (simp add: FileDescriptor_mdNode_def path_Split_def Let_def)
  moreover have "FileDescriptor_mdNode ''c.x'' = MDNode [MDString ''c.x'', MDString '''']"
    by (simp add: FileDescriptor_mdNode_def path_Split_def Let_def)
  ultimately show ?thesis
    using FileDescriptor_mdNode_parts [of p] by simp
qed

theorem FileDescriptor_mdNode_split_witness:
  "CHR ''/'' \<in> set ''/a/b/c.x''
   \<and> mdNode 0 example_heap empty_info (File ''/a/b/c.x'') =
       Some (MDNode [MDString ''c.x'', MDString ''/a/b''], empty_info)
   \<and> ''/a/b/c.x'' = ''/a/b'' @ ''/'' @ ''c.x''
   \<and> CHR ''/'' \<notin> set ''c.x''"
  using FileDescriptor_mdNode_split [of 0 example_heap empty_info "''/a/b/c.x''"]
  by simp

section \<open>Tags\<close>

text \<open>
  Claim C7. The tag accessor of a Line descriptor panics for every Line descriptor, also
  when it is called through the interface; it returns no tag.
\<close>

theorem LineDescriptor_Tag_panics:
  "LineDescriptor_Tag d = Inl ''LineDescriptor.Tag should never be called''
   \<and> Tag (Line d) = Inl ''LineDescriptor.Tag should never be called''
   \<and> (\<forall>t. Tag (Line d) \<noteq> Inr t)"
  by (simp add: LineDescriptor_Tag_def)

section \<open>The declare intrinsic\<close>

text \<open>
  Claim C8. \<^verbatim>\<open>InsertDeclare\<close> panics exactly when the handle that the catalog lookup
  returned is not a function or reports a name other than \<^verbatim>\<open>llvm.dbg.declare\<close>; the
  message then ends with the name the handle reports. Otherwise it returns the call of
  that handle with the two arguments storage and metadata node, in this order.
\<close>

theorem InsertDeclare_contract:
  "((\<exists>msg. InsertDeclare L m storage md = Inl msg) \<longleftrightarrow>
      (IsNil (IsAFunction L (getDbgDeclare L m))
       \<or> Name L (getDbgDeclare L m) \<noteq> ''llvm.dbg.declare''))
   \<and> (\<forall>msg. InsertDeclare L m storage md = Inl msg \<longrightarrow>
        msg = ''Wanted llvm.dbg.declare but got: '' @ Name L (getDbgDeclare L m))
   \<and> (\<not> IsNil (IsAFunction L (getDbgDeclare L m))
        \<and> Name L (getDbgDeclare L m) = ''llvm.dbg.declare'' \<longrightarrow>
      InsertDeclare L m storage md = Inr (CreateCall (getDbgDeclare L m) [storage, md] ''''))"
  by (auto simp add: InsertDeclare_def Let_def)

theorem InsertDeclare_contract_witness:
  "(\<not> IsNil (IsAFunction good_library (getDbgDeclare good_library ()))
    \<and> Name good_library (getDbgDeclare good_library ()) = ''llvm.dbg.declare''
    \<and> InsertDeclare good_library () (Handle 1) (MDNode []) =
        Inr (CreateCall (Handle 41) [Handle 1, MDNode []] ''''))
   \<and> (Name header_library (getDbgDeclare header_library ()) \<noteq> ''llvm.dbg.declare''
    \<and> InsertDeclare header_library () (Handle 1) (MDNode []) =
        Inl ''Wanted llvm.dbg.declare but got: llvm.dbg.value'')"
proof -
  have g: "getDbgDeclare good_library () = Handle 41"
    and gf: "\<not> IsNil (IsAFunction good_library (Handle 41))"
    and gn: "Name good_library (Handle 41) = ''llvm.dbg.declare''"
    by (simp_all add: getDbgDeclare_def getDbgDeclare_id_def good_library_def IsNil_def)
  have b: "getDbgDeclare header_library () = Handle 41"
    and bn: "Name header_library (Handle 41) = ''llvm.dbg.value''"
    by (simp_all add: getDbgDeclare_def getDbgDeclare_id_def header_library_def)
  from bn have "\<exists>msg. InsertDeclare header_library () (Handle 1) (MDNode []) = Inl msg"
    using InsertDeclare_contract [of header_library "()" "Handle 1" "MDNode []"] b by simp
  then obtain msg where msg: "InsertDeclare header_library () (Handle 1) (MDNode []) = Inl msg"
    by blast
  then have "msg = ''Wanted llvm.dbg.declare but got: llvm.dbg.value''"
    using InsertDeclare_contract [of header_library "()" "Handle 1" "MDNode []"] b bn by simp
  with msg show ?thesis
    using InsertDeclare_contract [of good_library "()" "Handle 1" "MDNode []"] g gf gn b bn
    by simp
qed

text \<open>What \<^verbatim>\<open>getDbgDeclare\<close> asks the catalog for, for every library and module: the
  identifier after \<^verbatim>\<open>dbg_declare\<close>.\<close>

lemma getDbgDeclare_requests_successor:
  "getDbgDeclare L m = getDeclaration L m (dbg_declare L + 1)
   \<and> getDbgDeclare_id L = dbg_declare L + 1
   \<and> getDbgDeclare_id L \<noteq> dbg_declare L"
  by (simp add: getDbgDeclare_def getDbgDeclare_id_def)

text \<open>
  Claim C9 says that the identifier passed to the catalog lookup is \<^verbatim>\<open>dbg_declare\<close>.
  The code increments the identifier first. On a library whose catalog follows the
  enumeration of its header (\<^verbatim>\<open>dbg_declare\<close> is 40 and names the declare intrinsic, 41
  names \<^verbatim>\<open>llvm.dbg.value\<close>) the lookup is asked for 41, the handle returned is not the
  declare intrinsic, and \<^verbatim>\<open>InsertDeclare\<close> panics on it.
\<close>

theorem getDbgDeclare_header_library:
  "dbg_declare header_library = 40
   \<and> getDbgDeclare_id header_library = 41
   \<and> getDbgDeclare header_library () = Handle 41
   \<and> getDeclaration header_library () (dbg_declare header_library) = Handle 40
   \<and> Name header_library (getDeclaration header_library () (dbg_declare header_library)) =
       ''llvm.dbg.declare''
   \<and> Name header_library (getDbgDeclare header_library ()) = ''llvm.dbg.value''
   \<and> InsertDeclare header_library () (Handle 1) (MDNode []) =
       Inl ''Wanted llvm.dbg.declare but got: llvm.dbg.value''"
  by (simp add: getDbgDeclare_def getDbgDeclare_id_def header_library_def InsertDeclare_def
      IsNil_def)

section \<open>Subroutine types\<close>

text \<open>
  Claim C10. For every result descriptor and every parameter list, empty or not,
  \<^verbatim>\<open>NewSubroutineCompositeType\<close> returns a composite type whose tag is
  \<^verbatim>\<open>DW_TAG_subroutine_type\<close> and whose members are the result followed by the parameters
  in their order, one more than the parameters.
\<close>

theorem NewSubroutineCompositeType_members:
  "ct_tag (NewSubroutineCompositeType Result Params) = DW_TAG_subroutine_type
   \<and> Tag (CompositeType (NewSubroutineCompositeType Result Params)) = Inr DW_TAG_subroutine_type
   \<and> length (ct_Members (NewSubroutineCompositeType Result Params)) = length Params + 1
   \<and> ct_Members (NewSubroutineCompositeType Result Params) ! 0 = Result
   \<and> ct_Members (NewSubroutineCompositeType Result Params) = Result # Params
   \<and> ct_Members (NewSubroutineCompositeType Result []) = [Result]"
  by (simp add: NewSubroutineCompositeType_def new_CompositeTypeDescriptor_def copy_slice_def
      Let_def)

end
